theory Spec2Isabelle
  imports Complex_Main "HOL-Library.AList"
begin

section \<open>Values exchanged with the HTTP API\<close>

text \<open>
  \<open>response.json()\<close> hands the connector a decoded JSON document: \<open>None\<close>, a bool, an
  integer, a string, a list or a dict with string keys. Python's \<open>None\<close> is \<open>JNull\<close>.
  A dict is an association list in insertion order; a key is looked up with \<open>map_of\<close>
  (the first entry of a key is the one that counts). JSON numbers with a fraction
  are left out: no function below computes with them.
\<close>

datatype json =
    JNull
  | JBool bool
  | JInt int
  | JStr string
  | JList "json list"
  | JDict "(string \<times> json) list"

type_synonym pydict = "(string \<times> json) list"

text \<open>
  The exceptions that occur below, all subclasses of \<open>Exception\<close> (what
  \<open>except Exception\<close> catches). \<open>KeyboardInterrupt\<close> and the other exceptions outside
  \<open>Exception\<close> are not modelled.
\<close>

datatype exn =
    RequestException string
  | JSONDecodeError
  | TypeError
  | ValueError
  | AttributeError

text \<open>Python truthiness, as tested by \<open>if not records\<close> and \<open>if cursor\<close>.\<close>

fun truthy :: "json \<Rightarrow> bool" where
  "truthy JNull = False"
| "truthy (JBool b) = b"
| "truthy (JInt i) = (i \<noteq> 0)"
| "truthy (JStr s) = (s \<noteq> [])"
| "truthy (JList xs) = (xs \<noteq> [])"
| "truthy (JDict kv) = (kv \<noteq> [])"

text \<open>\<open>len(x)\<close>: a \<open>TypeError\<close> for \<open>None\<close>, bools and integers.\<close>

fun py_len :: "json \<Rightarrow> exn + nat" where
  "py_len (JStr s) = Inr (length s)"
| "py_len (JList xs) = Inr (length xs)"
| "py_len (JDict kv) = Inr (length kv)"
| "py_len _ = Inl TypeError"

text \<open>\<open>d.get(key)\<close>: \<open>None\<close> when the key is missing.\<close>

definition dict_get :: "pydict \<Rightarrow> string \<Rightarrow> json" where
  "dict_get kv key = (case map_of kv key of None \<Rightarrow> JNull | Some v \<Rightarrow> v)"

section \<open>Configuration\<close>

record ConnectorConfig =
  base_url :: string
  api_key :: "string option"
  rate_limit_calls :: int
  rate_limit_period :: int
  max_retries :: int
  timeout :: int

text \<open>The defaults of the optional fields.\<close>

definition default_config :: "string \<Rightarrow> ConnectorConfig" where
  "default_config url =
     \<lparr>base_url = url, api_key = None, rate_limit_calls = 60, rate_limit_period = 60,
      max_retries = 3, timeout = 30\<rparr>"

section \<open>Response extraction\<close>

text \<open>
  \<open>_extract_records_from_response\<close>: the \<open>isinstance\<close> chain in the source's order. The
  value stored under \<open>data\<close>, \<open>results\<close> or \<open>items\<close> is returned whatever it is, so
  the result is a \<open>json\<close>, not necessarily a list.
\<close>

fun extract_records_from_response :: "json \<Rightarrow> json" where
  "extract_records_from_response (JList xs) = JList xs"
| "extract_records_from_response (JDict kv) =
     (case map_of kv ''data'' of
        Some v \<Rightarrow> v
      | None \<Rightarrow>
          (case map_of kv ''results'' of
             Some v \<Rightarrow> v
           | None \<Rightarrow>
               (case map_of kv ''items'' of
                  Some v \<Rightarrow> v
                | None \<Rightarrow> JList [JDict kv])))"
| "extract_records_from_response other = JList [other]"

text \<open>
  \<open>str.split(sep)\<close> with a one-character separator: always at least one piece, empty
  pieces kept.
\<close>

fun py_split :: "char \<Rightarrow> string \<Rightarrow> string list" where
  "py_split sep [] = [[]]"
| "py_split sep (c # cs) =
     (if c = sep then [] # py_split sep cs
      else (case py_split sep cs of
              [] \<Rightarrow> [[c]]
            | piece # pieces \<Rightarrow> (c # piece) # pieces))"

text \<open>
  \<open>_get_nested_value\<close>: \<open>walk_keys\<close> is the \<open>for key in keys\<close> loop, \<open>value\<close> being the
  loop variable.
\<close>

fun walk_keys :: "json \<Rightarrow> string list \<Rightarrow> json" where
  "walk_keys value [] = value"
| "walk_keys value (key # keys) =
     (case value of
        JDict kv \<Rightarrow> walk_keys (dict_get kv key) keys
      | _ \<Rightarrow> JNull)"

definition get_nested_value :: "json \<Rightarrow> string \<Rightarrow> json" where
  "get_nested_value data path = walk_keys data (py_split (CHR ''.'') path)"

section \<open>Building the request URL\<close>

text \<open>\<open>s.lstrip('/')\<close> for the one-character set used by \<open>get\<close> and \<open>post\<close>.\<close>

definition lstrip :: "char \<Rightarrow> string \<Rightarrow> string" where
  "lstrip c s = dropWhile (\<lambda>x. x = c) s"

text \<open>
  The f-string \<open>f"{self.config.base_url}/{endpoint.lstrip('/')}"\<close>, which \<open>get\<close> and
  \<open>post\<close> both evaluate. \<open>send method url\<close> stands for
  \<open>self._make_request(method, url, **kwargs).json()\<close>.
\<close>

definition endpoint_url :: "ConnectorConfig \<Rightarrow> string \<Rightarrow> string" where
  "endpoint_url cfg endpoint = base_url cfg @ ''/'' @ lstrip (CHR ''/'') endpoint"

definition get :: "ConnectorConfig \<Rightarrow> (string \<Rightarrow> string \<Rightarrow> exn + json) \<Rightarrow> string \<Rightarrow> exn + json" where
  "get cfg send endpoint = send ''GET'' (endpoint_url cfg endpoint)"

definition post :: "ConnectorConfig \<Rightarrow> (string \<Rightarrow> string \<Rightarrow> exn + json) \<Rightarrow> string \<Rightarrow> exn + json" where
  "post cfg send endpoint = send ''POST'' (endpoint_url cfg endpoint)"

section \<open>Rate limiting\<close>

text \<open>
  The limiter's state is the list \<open>self._rate_limit_calls\<close> (\<open>call_times\<close>). The wall
  clock is made explicit: \<open>clock\<close> is the time of the last event, and every call of
  \<open>_rate_limit_check\<close> is given two delays \<open>(d1, d2)\<close>: \<open>d1\<close> is the time that passes
  before the first \<open>time.time()\<close> (which reads \<open>now\<close>), \<open>d2\<close> the time that passes
  between the check (or the end of the requested sleep, so it includes any
  oversleeping) and the second \<open>time.time()\<close>, whose value is appended.
  \<open>time.sleep(t)\<close> advances the clock by \<open>t\<close>. Times are real numbers, so rounding
  of floats is not part of the model. \<open>min\<close> of an empty list raises \<open>ValueError\<close>.
\<close>

record RateLimiter =
  clock :: real
  call_times :: "real list"

definition rate_limit_check :: "ConnectorConfig \<Rightarrow> real \<times> real \<Rightarrow> RateLimiter \<Rightarrow> exn + RateLimiter" where
  "rate_limit_check cfg d s =
     (let now = clock s + fst d;
          kept = filter (\<lambda>call_time. now - call_time < real_of_int (rate_limit_period cfg))
                   (call_times s)
      in if rate_limit_calls cfg \<le> int (length kept) then
           (case kept of
              [] \<Rightarrow> Inl ValueError
            | _ # _ \<Rightarrow>
                let oldest_call = min_list kept;
                    sleep_time = real_of_int (rate_limit_period cfg) - (now - oldest_call);
                    woke = (if sleep_time > 0 then now + sleep_time else now);
                    stamp = woke + snd d
                in Inr \<lparr>clock = stamp, call_times = kept @ [stamp]\<rparr>)
         else
           let stamp = now + snd d
           in Inr \<lparr>clock = stamp, call_times = kept @ [stamp]\<rparr>)"

text \<open>
  A sequence of calls, one pair of delays each. The result lists the timestamp each
  call recorded (the accepted-call timestamps, never pruned) and the final state.
\<close>

fun admit_all :: "ConnectorConfig \<Rightarrow> (real \<times> real) list \<Rightarrow> RateLimiter \<Rightarrow> exn + (real list \<times> RateLimiter)" where
  "admit_all cfg [] s = Inr ([], s)"
| "admit_all cfg (d # ds) s =
     (case rate_limit_check cfg d s of
        Inl e \<Rightarrow> Inl e
      | Inr s1 \<Rightarrow>
          (case admit_all cfg ds s1 of
             Inl e \<Rightarrow> Inl e
           | Inr (stamps, s2) \<Rightarrow> Inr (last (call_times s1) # stamps, s2)))"

text \<open>The number of accepted timestamps in the window from \<open>a\<close> up to, not including, \<open>a + w\<close>.\<close>

definition in_window :: "real \<Rightarrow> real \<Rightarrow> real list \<Rightarrow> nat" where
  "in_window a w stamps = length (filter (\<lambda>t. a \<le> t \<and> t < a + w) stamps)"

text \<open>
  What holds between the limiter's state and the list \<open>stamps\<close> of all timestamps
  accepted so far: no accepted timestamp is later than the clock; the list kept by
  the limiter and the full history agree on the timestamps less than a period old;
  at most \<open>rate_limit_calls\<close> of those exist; and no window holds more.
\<close>

definition limiter_inv :: "ConnectorConfig \<Rightarrow> RateLimiter \<Rightarrow> real list \<Rightarrow> bool" where
  "limiter_inv cfg s stamps \<longleftrightarrow>
     (\<forall>t \<in> set stamps. t \<le> clock s) \<and>
     filter (\<lambda>t. clock s - t < real_of_int (rate_limit_period cfg)) stamps
       = filter (\<lambda>t. clock s - t < real_of_int (rate_limit_period cfg)) (call_times s) \<and>
     int (length (filter (\<lambda>t. clock s - t < real_of_int (rate_limit_period cfg)) stamps))
       \<le> rate_limit_calls cfg \<and>
     (\<forall>a. int (in_window a (real_of_int (rate_limit_period cfg)) stamps) \<le> rate_limit_calls cfg)"

section \<open>Requests with retries\<close>

text \<open>
  Modelled from the spec: the decorator \<open>tenacity.retry\<close> and its \<open>wait_exponential\<close>
  and \<open>stop_after_attempt\<close> are library code outside the repository. The spec gives
  the delay after a failed attempt as \<open>multiplier * 2^(attempt-1)\<close> clamped to
  \<open>[min, max]\<close>, attempts being counted from 1.
\<close>

definition wait_exponential :: "int \<Rightarrow> int \<Rightarrow> int \<Rightarrow> nat \<Rightarrow> int" where
  "wait_exponential multiplier lo hi attempt =
     max (max 0 lo) (min (multiplier * 2 ^ (attempt - 1)) hi)"

text \<open>
  Modelled from the spec: the retry loop of \<open>tenacity.retry(stop=stop_after_attempt(n),
  wait=..., reraise=True)\<close>: run the body; a result is returned; an exception on
  attempt \<open>n\<close> or later is re-raised as it is; otherwise sleep for the wait of this
  attempt and try again. The result carries the sleeps made and the number of the
  last attempt.
\<close>

function retry :: "nat \<Rightarrow> (nat \<Rightarrow> int) \<Rightarrow> (nat \<Rightarrow> exn + 'r) \<Rightarrow> nat \<Rightarrow> int list \<Rightarrow> (exn + 'r) \<times> int list \<times> nat" where
  "retry stop_after wait body attempt slept =
     (case body attempt of
        Inr r \<Rightarrow> (Inr r, slept, attempt)
      | Inl e \<Rightarrow>
          if stop_after \<le> attempt then (Inl e, slept, attempt)
          else retry stop_after wait body (Suc attempt) (slept @ [wait attempt]))"
  by pat_completeness auto
termination
  by (relation "measure (\<lambda>(stop_after, wait, body, attempt, slept). stop_after - attempt)") auto

declare retry.simps [simp del]

text \<open>
  \<open>_make_request\<close> under its decorator \<open>@retry(stop=stop_after_attempt(3),
  wait=wait_exponential(multiplier=1, min=2, max=10), reraise=True)\<close>.
  \<open>attempt_body t k\<close> is the outcome of running the method's body for the \<open>k\<close>-th time
  with \<open>timeout=t\<close>: the rate-limit check, \<open>session.request\<close> and \<open>raise_for_status\<close>;
  the \<open>except\<close> clause logs and re-raises, so a failure of the body is a failure of
  the attempt. Of the configuration the body reads \<open>timeout\<close>.
\<close>

definition make_request :: "ConnectorConfig \<Rightarrow> (int \<Rightarrow> nat \<Rightarrow> exn + 'r) \<Rightarrow> (exn + 'r) \<times> int list \<times> nat" where
  "make_request cfg attempt_body =
     retry 3 (wait_exponential 1 2 10) (attempt_body (timeout cfg)) 1 []"

section \<open>Pagination\<close>

text \<open>
  Both paginators are generators: nothing runs until the caller asks for the next
  page, and each \<open>next()\<close> runs the loop up to the next \<open>yield\<close>, to a \<open>break\<close>
  (\<open>StopIteration\<close>) or to an exception raised outside the \<open>try\<close>.

  The caller's \<open>params\<close> object is shared with the generator, so objects live in a
  store: \<open>cells\<close> maps an address to the object there and \<open>next_free\<close> is the next
  unused address. \<open>requests\<close> logs the \<open>params\<close> value of every \<open>self.get\<close> call made.
  \<open>fetch k ps\<close> is the outcome of the \<open>k\<close>-th such call (counted from 0) when it is
  given \<open>params=ps\<close>: an exception, or the decoded body.
\<close>

record world =
  cells :: "nat \<Rightarrow> json option"
  next_free :: nat
  requests :: "json list"

type_synonym fetch = "nat \<Rightarrow> json \<Rightarrow> exn + json"

datatype outcome = Yielded json | StopIteration | Raised exn

definition alloc :: "json \<Rightarrow> world \<Rightarrow> nat \<times> world" where
  "alloc v w =
     (next_free w, w\<lparr>cells := (cells w)(next_free w \<mapsto> v), next_free := Suc (next_free w)\<rparr>)"

text \<open>
  \<open>kwargs.get('params', {})\<close>: the address stored under \<open>params\<close>, or a new empty dict
  when the caller passed none.
\<close>

definition kwargs_get_params :: "nat option \<Rightarrow> world \<Rightarrow> nat \<times> world" where
  "kwargs_get_params kw w = (case kw of Some a \<Rightarrow> (a, w) | None \<Rightarrow> alloc (JDict []) w)"

text \<open>\<open>if max_pages and page >= max_pages\<close>: \<open>None\<close> and \<open>0\<close> are both falsy.\<close>

definition max_pages_reached :: "int option \<Rightarrow> int \<Rightarrow> bool" where
  "max_pages_reached max_pages page =
     (case max_pages of None \<Rightarrow> False | Some m \<Rightarrow> m \<noteq> 0 \<and> m \<le> page)"

text \<open>
  \<open>params.update({'limit': limit, 'offset': offset})\<close>: only a dict has \<open>update\<close>.
  A key already present keeps its place, a new key goes to the end.
\<close>

fun update_limit_offset :: "json \<Rightarrow> int \<Rightarrow> int \<Rightarrow> exn + json" where
  "update_limit_offset (JDict ps) limit offset =
     Inr (JDict (AList.update ''offset'' (JInt offset) (AList.update ''limit'' (JInt limit) ps)))"
| "update_limit_offset _ limit offset = Inl AttributeError"

text \<open>\<open>params[cursor_param] = cursor\<close>: a \<open>TypeError\<close> on anything but a dict.\<close>

fun setitem :: "json \<Rightarrow> string \<Rightarrow> json \<Rightarrow> exn + json" where
  "setitem (JDict ps) key v = Inr (JDict (AList.update key v ps))"
| "setitem _ key v = Inl TypeError"

subsection \<open>Offset variant\<close>

text \<open>
  Where the generator stands: at the top of the \<open>while\<close> loop, suspended at the
  \<open>yield\<close>, or finished. The page handed out at the \<open>yield\<close> is an object the
  consumer holds too, and \<open>len(records)\<close> is evaluated only when the generator is
  resumed: the suspended generator holds the address of \<open>records\<close>, and the length
  is read from the store as the consumer has left it.
\<close>

datatype offset_pc = OHead | OYield nat | ODone

record offset_gen =
  og_pc :: offset_pc
  og_offset :: int
  og_page :: int
  og_kwparams :: "nat option"

definition paginate_offset :: "nat option \<Rightarrow> offset_gen" where
  "paginate_offset kw = \<lparr>og_pc = OHead, og_offset = 0, og_page = 0, og_kwparams = kw\<rparr>"

text \<open>
  One pass from the top of the loop to the \<open>yield\<close> or a \<open>break\<close>. The outcome
  \<open>Yielded records\<close> is the page as it is handed out; the object itself is put into
  the store. An address without an object cannot arise; the case is there for
  totality.
\<close>

definition offset_body :: "fetch \<Rightarrow> int \<Rightarrow> int option \<Rightarrow> offset_gen \<Rightarrow> world \<Rightarrow> outcome \<times> offset_gen \<times> world" where
  "offset_body fetch limit max_pages g w =
     (if max_pages_reached max_pages (og_page g) then (StopIteration, g\<lparr>og_pc := ODone\<rparr>, w)
      else
        (case kwargs_get_params (og_kwparams g) w of
           (a, w1) \<Rightarrow>
             (case cells w1 a of
                None \<Rightarrow> (Raised AttributeError, g\<lparr>og_pc := ODone\<rparr>, w1)
              | Some params \<Rightarrow>
                  (case update_limit_offset params limit (og_offset g) of
                     Inl e \<Rightarrow> (Raised e, g\<lparr>og_pc := ODone\<rparr>, w1)
                   | Inr params' \<Rightarrow>
                       (let w2 = w1\<lparr>cells := (cells w1)(a \<mapsto> params'),
                                     requests := requests w1 @ [params']\<rparr>;
                            g1 = g\<lparr>og_kwparams := Some a\<rparr>
                        in case fetch (length (requests w1)) params' of
                             Inl e \<Rightarrow> (StopIteration, g1\<lparr>og_pc := ODone\<rparr>, w2)
                           | Inr data \<Rightarrow>
                               (let records = extract_records_from_response data
                                in if \<not> truthy records
                                   then (StopIteration, g1\<lparr>og_pc := ODone\<rparr>, w2)
                                   else (case alloc records w2 of
                                           (r, w3) \<Rightarrow>
                                             (Yielded records, g1\<lparr>og_pc := OYield r\<rparr>, w3))))))))"

text \<open>\<open>len\<close> of the object at an address, as the store has it now.\<close>

definition len_at :: "world \<Rightarrow> nat \<Rightarrow> exn + nat" where
  "len_at w r = (case cells w r of None \<Rightarrow> Inl TypeError | Some live \<Rightarrow> py_len live)"

text \<open>
  One \<open>next()\<close>. Resuming after the \<open>yield\<close>, \<open>len(records) < limit\<close> is tested first,
  on the object as it is now; a \<open>TypeError\<close> of \<open>len\<close> is caught by the \<open>except\<close>
  clause like any other.
\<close>

definition offset_next :: "fetch \<Rightarrow> int \<Rightarrow> int option \<Rightarrow> offset_gen \<Rightarrow> world \<Rightarrow> outcome \<times> offset_gen \<times> world" where
  "offset_next fetch limit max_pages g w =
     (case og_pc g of
        ODone \<Rightarrow> (StopIteration, g, w)
      | OHead \<Rightarrow> offset_body fetch limit max_pages g w
      | OYield r \<Rightarrow>
          (case len_at w r of
             Inl e \<Rightarrow> (StopIteration, g\<lparr>og_pc := ODone\<rparr>, w)
           | Inr n \<Rightarrow>
               if int n < limit then (StopIteration, g\<lparr>og_pc := ODone\<rparr>, w)
               else offset_body fetch limit max_pages
                      (g\<lparr>og_pc := OHead, og_offset := og_offset g + limit, og_page := og_page g + 1\<rparr>) w))"

text \<open>
  The outcomes of \<open>n\<close> successive \<open>next()\<close> calls by a caller that does nothing to
  the store in between.
\<close>

fun offset_pull :: "nat \<Rightarrow> fetch \<Rightarrow> int \<Rightarrow> int option \<Rightarrow> offset_gen \<Rightarrow> world \<Rightarrow> outcome list \<times> offset_gen \<times> world" where
  "offset_pull 0 fetch limit max_pages g w = ([], g, w)"
| "offset_pull (Suc n) fetch limit max_pages g w =
     (case offset_next fetch limit max_pages g w of
        (out, g1, w1) \<Rightarrow>
          (case offset_pull n fetch limit max_pages g1 w1 of
             (outs, g2, w2) \<Rightarrow> (out # outs, g2, w2)))"



subsection \<open>Cursor variant\<close>

text \<open>
  Suspended at the \<open>yield\<close>, the generator holds \<open>data\<close>, from which the cursor is read
  on resumption; the page handed out is not read again. The response is taken as it
  was received: a consumer that edits the response object itself is not modelled.
\<close>

datatype cursor_pc = CHead | CYield json | CDone

record cursor_gen =
  cg_pc :: cursor_pc
  cg_cursor :: json
  cg_page :: int
  cg_kwparams :: "nat option"

definition paginate_cursor :: "nat option \<Rightarrow> cursor_gen" where
  "paginate_cursor kw = \<lparr>cg_pc = CHead, cg_cursor = JNull, cg_page = 0, cg_kwparams = kw\<rparr>"

definition cursor_body :: "fetch \<Rightarrow> string \<Rightarrow> int option \<Rightarrow> cursor_gen \<Rightarrow> world \<Rightarrow> outcome \<times> cursor_gen \<times> world" where
  "cursor_body fetch cursor_param max_pages g w =
     (if max_pages_reached max_pages (cg_page g) then (StopIteration, g\<lparr>cg_pc := CDone\<rparr>, w)
      else
        (case kwargs_get_params (cg_kwparams g) w of
           (a, w1) \<Rightarrow>
             (case cells w1 a of
                None \<Rightarrow> (Raised TypeError, g\<lparr>cg_pc := CDone\<rparr>, w1)
              | Some params \<Rightarrow>
                  (case (if truthy (cg_cursor g) then setitem params cursor_param (cg_cursor g)
                         else Inr params) of
                     Inl e \<Rightarrow> (Raised e, g\<lparr>cg_pc := CDone\<rparr>, w1)
                   | Inr params' \<Rightarrow>
                       (let w2 = w1\<lparr>cells := (cells w1)(a \<mapsto> params'),
                                     requests := requests w1 @ [params']\<rparr>;
                            g1 = g\<lparr>cg_kwparams := Some a\<rparr>
                        in case fetch (length (requests w1)) params' of
                             Inl e \<Rightarrow> (StopIteration, g1\<lparr>cg_pc := CDone\<rparr>, w2)
                           | Inr data \<Rightarrow>
                               if \<not> truthy (extract_records_from_response data)
                               then (StopIteration, g1\<lparr>cg_pc := CDone\<rparr>, w2)
                               else (Yielded (extract_records_from_response data),
                                     g1\<lparr>cg_pc := CYield data\<rparr>, w2))))))"

definition cursor_next :: "fetch \<Rightarrow> string \<Rightarrow> string \<Rightarrow> int option \<Rightarrow> cursor_gen \<Rightarrow> world \<Rightarrow> outcome \<times> cursor_gen \<times> world" where
  "cursor_next fetch cursor_param cursor_path max_pages g w =
     (case cg_pc g of
        CDone \<Rightarrow> (StopIteration, g, w)
      | CHead \<Rightarrow> cursor_body fetch cursor_param max_pages g w
      | CYield data \<Rightarrow>
          (let cursor = get_nested_value data cursor_path
           in if \<not> truthy cursor then (StopIteration, g\<lparr>cg_pc := CDone, cg_cursor := cursor\<rparr>, w)
              else cursor_body fetch cursor_param max_pages
                     (g\<lparr>cg_pc := CHead, cg_cursor := cursor, cg_page := cg_page g + 1\<rparr>) w))"

fun cursor_pull :: "nat \<Rightarrow> fetch \<Rightarrow> string \<Rightarrow> string \<Rightarrow> int option \<Rightarrow> cursor_gen \<Rightarrow> world \<Rightarrow> outcome list \<times> cursor_gen \<times> world" where
  "cursor_pull 0 fetch cursor_param cursor_path max_pages g w = ([], g, w)"
| "cursor_pull (Suc n) fetch cursor_param cursor_path max_pages g w =
     (case cursor_next fetch cursor_param cursor_path max_pages g w of
        (out, g1, w1) \<Rightarrow>
          (case cursor_pull n fetch cursor_param cursor_path max_pages g1 w1 of
             (outs, g2, w2) \<Rightarrow> (out # outs, g2, w2)))"

subsection \<open>What the caller observes\<close>


text \<open>A backend that answers with an empty list of records wherever \<open>fetch\<close> raises.\<close>

definition as_end_of_data :: "fetch \<Rightarrow> fetch" where
  "as_end_of_data fetch k ps =
     (case fetch k ps of Inl e \<Rightarrow> Inr (JList []) | Inr data \<Rightarrow> Inr data)"

section \<open>Properties of response extraction\<close>

lemma py_split_nonempty: "py_split sep s \<noteq> []"
  by (induction s) (auto split: list.splits)

lemma py_split_no_sep: "sep \<notin> set k \<Longrightarrow> py_split sep k = [k]"
  by (induction k) auto

lemma py_split_append: "sep \<notin> set k \<Longrightarrow> py_split sep (k @ sep # rest) = k # py_split sep rest"
  by (induction k) auto

lemma walk_keys_non_dict: "(\<forall>kv. d \<noteq> JDict kv) \<Longrightarrow> ks \<noteq> [] \<Longrightarrow> walk_keys d ks = JNull"
  by (cases ks; cases d) auto

text \<open>
  C3. \<open>_extract_records_from_response\<close> is a function of its argument alone, defined on
  every value, with this precedence: a list is returned as it is; a dict with the key
  \<open>data\<close> gives the value of \<open>data\<close>, whatever other keys it has; without \<open>data\<close>, a
  dict with \<open>results\<close> gives that value; without both, a dict with \<open>items\<close> gives that
  value; a dict with none of the three keys, and every value that is neither a list
  nor a dict, is wrapped in a one-element list. The four examples of the spec are the
  last four conjuncts.
\<close>

theorem extract_records_precedence:
  "extract_records_from_response (JList xs) = JList xs \<and>
   (map_of kv ''data'' = Some v \<longrightarrow> extract_records_from_response (JDict kv) = v) \<and>
   (map_of kv ''data'' = None \<and> map_of kv ''results'' = Some v \<longrightarrow>
      extract_records_from_response (JDict kv) = v) \<and>
   (map_of kv ''data'' = None \<and> map_of kv ''results'' = None \<and> map_of kv ''items'' = Some v \<longrightarrow>
      extract_records_from_response (JDict kv) = v) \<and>
   (map_of kv ''data'' = None \<and> map_of kv ''results'' = None \<and> map_of kv ''items'' = None \<longrightarrow>
      extract_records_from_response (JDict kv) = JList [JDict kv]) \<and>
   ((\<forall>ys. d \<noteq> JList ys) \<and> (\<forall>m. d \<noteq> JDict m) \<longrightarrow>
      extract_records_from_response d = JList [d]) \<and>
   extract_records_from_response (JList [JInt 1, JInt 2, JInt 3]) = JList [JInt 1, JInt 2, JInt 3] \<and>
   extract_records_from_response (JDict [(''data'', JList [JInt 1])]) = JList [JInt 1] \<and>
   extract_records_from_response (JDict [(''results'', JList [JInt 1])]) = JList [JInt 1] \<and>
   extract_records_from_response (JDict [(''x'', JInt 1)]) = JList [JDict [(''x'', JInt 1)]]"
  by (cases d) auto

theorem extract_records_precedence_witness:
  "extract_records_from_response
     (JDict [(''items'', JList [JInt 3]), (''results'', JList [JInt 2]), (''data'', JList [JInt 1])])
     = JList [JInt 1] \<and>
   extract_records_from_response (JDict [(''items'', JList [JInt 3]), (''results'', JList [JInt 2])])
     = JList [JInt 2] \<and>
   extract_records_from_response (JDict [(''total'', JInt 7), (''items'', JList [JInt 3])])
     = JList [JInt 3] \<and>
   extract_records_from_response (JDict [(''total'', JInt 7)]) = JList [JDict [(''total'', JInt 7)]] \<and>
   extract_records_from_response (JStr ''ok'') = JList [JStr ''ok'']"
  using
    extract_records_precedence [of _
      "[(''items'', JList [JInt 3]), (''results'', JList [JInt 2]), (''data'', JList [JInt 1])]"
      "JList [JInt 1]"]
    extract_records_precedence [of _
      "[(''items'', JList [JInt 3]), (''results'', JList [JInt 2])]" "JList [JInt 2]"]
    extract_records_precedence [of _
      "[(''total'', JInt 7), (''items'', JList [JInt 3])]" "JList [JInt 3]"]
    extract_records_precedence [of _ "[(''total'', JInt 7)]" _ "JStr ''ok''"]
  by simp

text \<open>
  C8. \<open>_get_nested_value\<close> never raises (it is a total function into values, \<open>JNull\<close>
  being Python's \<open>None\<close>, the "absent" of the spec). The path is split on the dot and
  walked one key at a time: on a value that is not a dict the result is \<open>None\<close>
  whatever the path; on a dict and a path of one segment \<open>k\<close> it is the value under
  \<open>k\<close>, \<open>None\<close> when \<open>k\<close> is missing; on a dict and a path \<open>k.rest\<close> it is \<open>None\<close> when
  \<open>k\<close> is missing and otherwise the lookup of \<open>rest\<close> in the value under \<open>k\<close>. The
  three examples of the spec are the last three conjuncts.
\<close>

theorem get_nested_value_walk:
  "((\<forall>kv. d \<noteq> JDict kv) \<longrightarrow> get_nested_value d path = JNull) \<and>
   (CHR ''.'' \<notin> set k \<longrightarrow>
      get_nested_value (JDict kv) k = (case map_of kv k of None \<Rightarrow> JNull | Some v \<Rightarrow> v) \<and>
      get_nested_value (JDict kv) (k @ ''.'' @ rest) =
        (case map_of kv k of None \<Rightarrow> JNull | Some v \<Rightarrow> get_nested_value v rest)) \<and>
   get_nested_value (JDict [(''a'', JDict [(''b'', JStr ''c'')])]) ''a.b'' = JStr ''c'' \<and>
   get_nested_value (JDict [(''a'', JDict [])]) ''a.b'' = JNull \<and>
   get_nested_value (JDict []) ''a.b'' = JNull"
proof -
  have not_dict: "(\<forall>kv. d \<noteq> JDict kv) \<longrightarrow> get_nested_value d path = JNull"
    by (simp add: get_nested_value_def walk_keys_non_dict py_split_nonempty)
  have one: "CHR ''.'' \<notin> set k \<longrightarrow>
      get_nested_value (JDict kv) k = (case map_of kv k of None \<Rightarrow> JNull | Some v \<Rightarrow> v)"
    by (simp add: get_nested_value_def py_split_no_sep dict_get_def)
  have more: "CHR ''.'' \<notin> set k \<longrightarrow> get_nested_value (JDict kv) (k @ ''.'' @ rest) =
        (case map_of kv k of None \<Rightarrow> JNull | Some v \<Rightarrow> get_nested_value v rest)"
  proof
    assume k: "CHR ''.'' \<notin> set k"
    have none: "walk_keys JNull (py_split CHR ''.'' rest) = JNull"
      by (simp add: walk_keys_non_dict py_split_nonempty)
    show "get_nested_value (JDict kv) (k @ ''.'' @ rest) =
        (case map_of kv k of None \<Rightarrow> JNull | Some v \<Rightarrow> get_nested_value v rest)"
      using k none
      by (simp add: get_nested_value_def py_split_append dict_get_def split: option.splits)
  qed
  have ex1: "get_nested_value (JDict [(''a'', JDict [(''b'', JStr ''c'')])]) ''a.b'' = JStr ''c''"
    by (simp add: get_nested_value_def dict_get_def)
  have ex2: "get_nested_value (JDict [(''a'', JDict [])]) ''a.b'' = JNull"
    by (simp add: get_nested_value_def dict_get_def)
  have ex3: "get_nested_value (JDict []) ''a.b'' = JNull"
    by (simp add: get_nested_value_def dict_get_def)
  from not_dict one more ex1 ex2 ex3 show ?thesis by blast
qed

theorem get_nested_value_walk_witness:
  "get_nested_value (JList [JInt 1]) ''next_cursor'' = JNull \<and>
   get_nested_value (JDict [(''next_cursor'', JStr ''c1'')]) ''next_cursor'' = JStr ''c1'' \<and>
   get_nested_value (JDict [(''meta'', JDict [(''next'', JStr ''c1'')])]) ''meta.next''
     = get_nested_value (JDict [(''next'', JStr ''c1'')]) ''next'' \<and>
   get_nested_value (JDict [(''meta'', JInt 5)]) ''meta.next'' = JNull"
  using
    get_nested_value_walk [of "JList [JInt 1]" "''next_cursor''" "''next_cursor''"
      "[(''next_cursor'', JStr ''c1'')]" "[]"]
    get_nested_value_walk [of "JInt 5" "''next''" "''meta''"
      "[(''meta'', JDict [(''next'', JStr ''c1'')])]" "''next''"]
    get_nested_value_walk [of "JInt 5" "''next''" "''meta''" "[(''meta'', JInt 5)]" "''next''"]
  by simp

section \<open>The request URL\<close>

lemma endpoint_url_shape:
  "\<exists>rest. endpoint_url cfg endpoint = base_url cfg @ ''/'' @ rest \<and>
          (rest = [] \<or> hd rest \<noteq> CHR ''/'') \<and>
          (\<exists>n. endpoint = replicate n (CHR ''/'') @ rest)"
proof -
  let ?rest = "dropWhile (\<lambda>x. x = CHR ''/'') endpoint"
  have "takeWhile (\<lambda>x. x = CHR ''/'') endpoint
          = replicate (length (takeWhile (\<lambda>x. x = CHR ''/'') endpoint)) (CHR ''/'')"
    by (induction endpoint) auto
  then have "endpoint = replicate (length (takeWhile (\<lambda>x. x = CHR ''/'') endpoint)) (CHR ''/'') @ ?rest"
    by (metis takeWhile_dropWhile_id)
  moreover have "?rest = [] \<or> hd ?rest \<noteq> CHR ''/''"
    using hd_dropWhile [of "\<lambda>x. x = CHR ''/''" endpoint] by blast
  ultimately show ?thesis
    unfolding endpoint_url_def lstrip_def by blast
qed

text \<open>
  C7. At \<open>base_url = "https://api.example.com/"\<close> and \<open>endpoint = "items"\<close> the URL that
  \<open>get\<close> and \<open>post\<close> request has two slashes between the base and the endpoint: the
  leading slashes of the endpoint are stripped, a trailing slash of the base is not.
\<close>

theorem endpoint_url_trailing_slash:
  "endpoint_url (default_config ''https://api.example.com/'') ''items''
     = ''https://api.example.com//items'' \<and>
   get (default_config ''https://api.example.com/'') (\<lambda>method url. Inr (JStr url)) ''items''
     = Inr (JStr ''https://api.example.com//items'') \<and>
   post (default_config ''https://api.example.com/'') (\<lambda>method url. Inr (JStr url)) ''/items''
     = Inr (JStr ''https://api.example.com//items'')"
  by (simp add: endpoint_url_def get_def post_def default_config_def lstrip_def)

section \<open>Pagination: the page cutoff and failures\<close>









lemma offset_body_as_end_of_data:
  "offset_body (as_end_of_data fetch) limit mp g w = offset_body fetch limit mp g w"
  by (simp add: offset_body_def as_end_of_data_def Let_def
      split: prod.splits option.splits sum.splits)

lemma offset_next_as_end_of_data:
  "offset_next (as_end_of_data fetch) limit mp g w = offset_next fetch limit mp g w"
  by (simp add: offset_next_def offset_body_as_end_of_data split: offset_pc.splits sum.splits)

lemma offset_pull_as_end_of_data:
  "offset_pull n (as_end_of_data fetch) limit mp g w = offset_pull n fetch limit mp g w"
  by (induction n arbitrary: g w) (simp_all add: offset_next_as_end_of_data)

lemma cursor_body_as_end_of_data:
  "cursor_body (as_end_of_data fetch) cp mp g w = cursor_body fetch cp mp g w"
  by (simp add: cursor_body_def as_end_of_data_def Let_def
      split: prod.splits option.splits sum.splits)

lemma cursor_next_as_end_of_data:
  "cursor_next (as_end_of_data fetch) cp pa mp g w = cursor_next fetch cp pa mp g w"
  by (simp add: cursor_next_def cursor_body_as_end_of_data Let_def split: cursor_pc.splits)

lemma cursor_pull_as_end_of_data:
  "cursor_pull n (as_end_of_data fetch) cp pa mp g w = cursor_pull n fetch cp pa mp g w"
  by (induction n arbitrary: g w) (simp_all add: cursor_next_as_end_of_data)

lemma offset_body_fetch_raises:
  "offset_body fetch limit mp g w = (out, g1, w1) \<Longrightarrow> requests w1 = requests w @ [ps] \<Longrightarrow>
   fetch (length (requests w)) ps = Inl e \<Longrightarrow> out = StopIteration \<and> og_pc g1 = ODone"
  by (auto simp: offset_body_def kwargs_get_params_def alloc_def Let_def
      split: if_splits prod.splits option.splits sum.splits)

lemma offset_next_fetch_raises:
  "offset_next fetch limit mp g w = (out, g1, w1) \<Longrightarrow> requests w1 = requests w @ [ps] \<Longrightarrow>
   fetch (length (requests w)) ps = Inl e \<Longrightarrow> out = StopIteration \<and> og_pc g1 = ODone"
  by (auto simp: offset_next_def split: offset_pc.splits sum.splits if_splits
      dest: offset_body_fetch_raises)

lemma cursor_body_fetch_raises:
  "cursor_body fetch cp mp g w = (out, g1, w1) \<Longrightarrow> requests w1 = requests w @ [ps] \<Longrightarrow>
   fetch (length (requests w)) ps = Inl e \<Longrightarrow> out = StopIteration \<and> cg_pc g1 = CDone"
  by (auto simp: cursor_body_def kwargs_get_params_def alloc_def Let_def
      split: if_splits prod.splits option.splits sum.splits)

lemma cursor_next_fetch_raises:
  "cursor_next fetch cp pa mp g w = (out, g1, w1) \<Longrightarrow> requests w1 = requests w @ [ps] \<Longrightarrow>
   fetch (length (requests w)) ps = Inl e \<Longrightarrow> out = StopIteration \<and> cg_pc g1 = CDone"
  by (auto simp: cursor_next_def Let_def split: cursor_pc.splits sum.splits if_splits
      dest: cursor_body_fetch_raises)

lemma offset_next_done: "og_pc g = ODone \<Longrightarrow> offset_next fetch limit mp g w = (StopIteration, g, w)"
  by (simp add: offset_next_def)

lemma cursor_next_done: "cg_pc g = CDone \<Longrightarrow> cursor_next fetch cp pa mp g w = (StopIteration, g, w)"
  by (simp add: cursor_next_def)

lemma update_limit_offset_Inl:
  "update_limit_offset v limit off = Inl e \<Longrightarrow> e = AttributeError \<and> (\<forall>ps. v \<noteq> JDict ps)"
  by (cases v) auto

lemma setitem_Inl: "setitem v key c = Inl e \<Longrightarrow> e = TypeError \<and> (\<forall>ps. v \<noteq> JDict ps)"
  by (cases v) auto

lemma offset_body_raised:
  "offset_body fetch limit mp g w = (Raised e, g1, w1) \<Longrightarrow>
   e = AttributeError \<and> requests w1 = requests w \<and> og_pc g1 = ODone"
  by (auto simp: offset_body_def kwargs_get_params_def alloc_def Let_def
      split: if_splits prod.splits option.splits sum.splits dest: update_limit_offset_Inl)

lemma offset_next_raised:
  "offset_next fetch limit mp g w = (Raised e, g1, w1) \<Longrightarrow>
   e = AttributeError \<and> requests w1 = requests w \<and> og_pc g1 = ODone"
  by (auto simp: offset_next_def split: offset_pc.splits sum.splits if_splits
      dest: offset_body_raised)

lemma cursor_body_raised:
  "cursor_body fetch cp mp g w = (Raised e, g1, w1) \<Longrightarrow>
   e = TypeError \<and> requests w1 = requests w \<and> cg_pc g1 = CDone"
  by (auto simp: cursor_body_def kwargs_get_params_def alloc_def Let_def
      split: if_splits prod.splits option.splits sum.splits dest: setitem_Inl)

lemma cursor_next_raised:
  "cursor_next fetch cp pa mp g w = (Raised e, g1, w1) \<Longrightarrow>
   e = TypeError \<and> requests w1 = requests w \<and> cg_pc g1 = CDone"
  by (auto simp: cursor_next_def Let_def split: cursor_pc.splits sum.splits if_splits
      dest: cursor_body_raised)

lemma offset_request_fails:
  assumes "og_pc g = OHead" "\<not> max_pages_reached mp (og_page g)" "og_kwparams g = Some a"
    "cells w a = Some (JDict cur)"
    "fetch (length (requests w))
       (JDict (AList.update ''offset'' (JInt (og_offset g)) (AList.update ''limit'' (JInt limit) cur)))
     = Inl e"
  shows "fst (offset_next fetch limit mp g w) = StopIteration \<and>
         og_pc (fst (snd (offset_next fetch limit mp g w))) = ODone \<and>
         requests (snd (snd (offset_next fetch limit mp g w))) =
           requests w @ [JDict (AList.update ''offset'' (JInt (og_offset g))
                                  (AList.update ''limit'' (JInt limit) cur))]"
  using assms by (simp add: offset_next_def offset_body_def kwargs_get_params_def Let_def)

lemma cursor_request_fails:
  assumes "cg_pc g = CHead" "\<not> truthy (cg_cursor g)" "\<not> max_pages_reached mp (cg_page g)"
    "cg_kwparams g = Some a" "cells w a = Some v" "fetch (length (requests w)) v = Inl e"
  shows "fst (cursor_next fetch cp pa mp g w) = StopIteration \<and>
         cg_pc (fst (snd (cursor_next fetch cp pa mp g w))) = CDone \<and>
         requests (snd (snd (cursor_next fetch cp pa mp g w))) = requests w @ [v]"
  using assms by (simp add: cursor_next_def cursor_body_def kwargs_get_params_def Let_def)

lemma offset_params_not_dict:
  assumes "og_pc g = OHead" "\<not> max_pages_reached mp (og_page g)" "og_kwparams g = Some a"
    "cells w a = Some v" "\<forall>ps. v \<noteq> JDict ps"
  shows "offset_next fetch limit mp g w = (Raised AttributeError, g\<lparr>og_pc := ODone\<rparr>, w)"
  using assms
  by (cases v) (simp_all add: offset_next_def offset_body_def kwargs_get_params_def)

text \<open>
  C6, counterexample. An exception of a step can reach the caller: the statements
  that put the paging parameters into \<open>params\<close> stand before the \<open>try\<close>. With
  \<open>params=None\<close> the first \<open>next()\<close> of the offset paginator raises \<open>AttributeError\<close>
  (\<open>params.update\<close>); the cursor paginator yields its first page, reads the cursor
  \<open>c1\<close>, and raises \<open>TypeError\<close> on the second \<open>next()\<close>
  (\<open>params[cursor_param] = cursor\<close>).
\<close>

theorem pagination_exception_reaches_caller:
  "fst (offset_next (\<lambda>k ps. Inr (JList [JInt 1])) 100 None (paginate_offset (Some 0))
          \<lparr>cells = [0 \<mapsto> JNull], next_free = 1, requests = []\<rparr>) = Raised AttributeError \<and>
   fst (cursor_pull 2
          (\<lambda>k ps. Inr (JDict [(''data'', JList [JInt 1]), (''next_cursor'', JStr ''c1'')]))
          ''cursor'' ''next_cursor'' None (paginate_cursor (Some 0))
          \<lparr>cells = [0 \<mapsto> JNull], next_free = 1, requests = []\<rparr>)
     = [Yielded (JList [JInt 1]), Raised TypeError]"
  by (simp add: numeral_2_eq_2 offset_next_def offset_body_def paginate_offset_def
      cursor_next_def cursor_body_def paginate_cursor_def kwargs_get_params_def
      max_pages_reached_def get_nested_value_def dict_get_def Let_def)

text \<open>
  C6, as amended. Every exception raised inside the \<open>try\<close> of a step ends the
  sequence and is not raised to the caller. Take any \<open>next()\<close> of either paginator
  in which a request is made (the log grows by the request's \<open>params\<close>) and that
  request raises: its outcome is \<open>StopIteration\<close>, neither a page nor the exception,
  and the generator is finished, so every later \<open>next()\<close> is \<open>StopIteration\<close> again
  without a request. Such a \<open>next()\<close> exists: at the top of the loop, below the
  page cutoff and with a dict as \<open>params\<close> (any \<open>params\<close> in the cursor variant while
  no cursor is held), the request is made, and if it raises the outcome is
  \<open>StopIteration\<close>. A \<open>TypeError\<close> of \<open>len(records)\<close> after a page has been handed
  out ends the sequence in the same way. For the caller a raising backend cannot be
  told from one that answers with no records: replacing every exception of the
  backend by an empty list changes neither an outcome nor a state. Whenever a
  \<open>next()\<close> does raise, it is the \<open>AttributeError\<close> (offset) or \<open>TypeError\<close> (cursor)
  of the statements before the \<open>try\<close>, and no request has been made in that step.
\<close>

theorem pagination_failure_ends_sequence:
  "(offset_next fetch limit mp g w = (out, g1, w1) \<and> requests w1 = requests w @ [ps] \<and>
      fetch (length (requests w)) ps = Inl e
      \<longrightarrow> out = StopIteration \<and> og_pc g1 = ODone \<and>
          offset_next fetch limit mp g1 w1 = (StopIteration, g1, w1)) \<and>
   (cursor_next fetch cursor_param cursor_path mp cg w = (cout, cg1, cw1) \<and>
      requests cw1 = requests w @ [ps] \<and> fetch (length (requests w)) ps = Inl e
      \<longrightarrow> cout = StopIteration \<and> cg_pc cg1 = CDone \<and>
          cursor_next fetch cursor_param cursor_path mp cg1 cw1 = (StopIteration, cg1, cw1)) \<and>
   (og_pc g = OHead \<and> \<not> max_pages_reached mp (og_page g) \<and> og_kwparams g = Some a \<and>
      cells w a = Some (JDict cur) \<and>
      fetch (length (requests w))
        (JDict (AList.update ''offset'' (JInt (og_offset g)) (AList.update ''limit'' (JInt limit) cur)))
        = Inl e
      \<longrightarrow> fst (offset_next fetch limit mp g w) = StopIteration \<and>
          og_pc (fst (snd (offset_next fetch limit mp g w))) = ODone \<and>
          requests (snd (snd (offset_next fetch limit mp g w))) =
            requests w @ [JDict (AList.update ''offset'' (JInt (og_offset g))
                                   (AList.update ''limit'' (JInt limit) cur))]) \<and>
   (cg_pc cg = CHead \<and> \<not> truthy (cg_cursor cg) \<and> \<not> max_pages_reached mp (cg_page cg) \<and>
      cg_kwparams cg = Some a \<and> cells w a = Some v \<and> fetch (length (requests w)) v = Inl e
      \<longrightarrow> fst (cursor_next fetch cursor_param cursor_path mp cg w) = StopIteration \<and>
          cg_pc (fst (snd (cursor_next fetch cursor_param cursor_path mp cg w))) = CDone \<and>
          requests (snd (snd (cursor_next fetch cursor_param cursor_path mp cg w)))
            = requests w @ [v]) \<and>
   (og_pc g = OYield r \<and> len_at w r = Inl e
      \<longrightarrow> offset_next fetch limit mp g w = (StopIteration, g\<lparr>og_pc := ODone\<rparr>, w)) \<and>
   offset_next (as_end_of_data fetch) limit mp g w = offset_next fetch limit mp g w \<and>
   offset_pull n (as_end_of_data fetch) limit mp g w = offset_pull n fetch limit mp g w \<and>
   cursor_next (as_end_of_data fetch) cursor_param cursor_path mp cg w
     = cursor_next fetch cursor_param cursor_path mp cg w \<and>
   cursor_pull n (as_end_of_data fetch) cursor_param cursor_path mp cg w
     = cursor_pull n fetch cursor_param cursor_path mp cg w \<and>
   (offset_next fetch limit mp g w = (Raised e, g1, w1)
      \<longrightarrow> e = AttributeError \<and> requests w1 = requests w \<and> og_pc g1 = ODone) \<and>
   (cursor_next fetch cursor_param cursor_path mp cg w = (Raised e, cg1, cw1)
      \<longrightarrow> e = TypeError \<and> requests cw1 = requests w \<and> cg_pc cg1 = CDone)"
proof -
  have off: "offset_next fetch limit mp g w = (out, g1, w1) \<and> requests w1 = requests w @ [ps] \<and>
      fetch (length (requests w)) ps = Inl e
      \<longrightarrow> out = StopIteration \<and> og_pc g1 = ODone \<and>
          offset_next fetch limit mp g1 w1 = (StopIteration, g1, w1)"
    using offset_next_fetch_raises [of fetch limit mp g w out g1 w1 ps e]
      offset_next_done [of g1 fetch limit mp w1] by blast
  have cur: "cursor_next fetch cursor_param cursor_path mp cg w = (cout, cg1, cw1) \<and>
      requests cw1 = requests w @ [ps] \<and> fetch (length (requests w)) ps = Inl e
      \<longrightarrow> cout = StopIteration \<and> cg_pc cg1 = CDone \<and>
          cursor_next fetch cursor_param cursor_path mp cg1 cw1 = (StopIteration, cg1, cw1)"
    using cursor_next_fetch_raises [of fetch cursor_param cursor_path mp cg w cout cg1 cw1 ps e]
      cursor_next_done [of cg1 fetch cursor_param cursor_path mp cw1] by blast
  have offp: "og_pc g = OHead \<and> \<not> max_pages_reached mp (og_page g) \<and> og_kwparams g = Some a \<and>
      cells w a = Some (JDict cur) \<and>
      fetch (length (requests w))
        (JDict (AList.update ''offset'' (JInt (og_offset g)) (AList.update ''limit'' (JInt limit) cur)))
        = Inl e
      \<longrightarrow> fst (offset_next fetch limit mp g w) = StopIteration \<and>
          og_pc (fst (snd (offset_next fetch limit mp g w))) = ODone \<and>
          requests (snd (snd (offset_next fetch limit mp g w))) =
            requests w @ [JDict (AList.update ''offset'' (JInt (og_offset g))
                                   (AList.update ''limit'' (JInt limit) cur))]"
    using offset_request_fails [of g mp a w cur fetch limit e] by blast
  have curp: "cg_pc cg = CHead \<and> \<not> truthy (cg_cursor cg) \<and> \<not> max_pages_reached mp (cg_page cg) \<and>
      cg_kwparams cg = Some a \<and> cells w a = Some v \<and> fetch (length (requests w)) v = Inl e
      \<longrightarrow> fst (cursor_next fetch cursor_param cursor_path mp cg w) = StopIteration \<and>
          cg_pc (fst (snd (cursor_next fetch cursor_param cursor_path mp cg w))) = CDone \<and>
          requests (snd (snd (cursor_next fetch cursor_param cursor_path mp cg w)))
            = requests w @ [v]"
    using cursor_request_fails [of cg mp a w v fetch e cursor_param cursor_path] by blast
  have len: "og_pc g = OYield r \<and> len_at w r = Inl e
      \<longrightarrow> offset_next fetch limit mp g w = (StopIteration, g\<lparr>og_pc := ODone\<rparr>, w)"
    by (simp add: offset_next_def)
  have e1: "offset_next (as_end_of_data fetch) limit mp g w = offset_next fetch limit mp g w"
    by (rule offset_next_as_end_of_data)
  have e2: "offset_pull n (as_end_of_data fetch) limit mp g w = offset_pull n fetch limit mp g w"
    by (rule offset_pull_as_end_of_data)
  have e3: "cursor_next (as_end_of_data fetch) cursor_param cursor_path mp cg w
     = cursor_next fetch cursor_param cursor_path mp cg w"
    by (rule cursor_next_as_end_of_data)
  have e4: "cursor_pull n (as_end_of_data fetch) cursor_param cursor_path mp cg w
     = cursor_pull n fetch cursor_param cursor_path mp cg w"
    by (rule cursor_pull_as_end_of_data)
  have r1: "offset_next fetch limit mp g w = (Raised e, g1, w1)
      \<longrightarrow> e = AttributeError \<and> requests w1 = requests w \<and> og_pc g1 = ODone"
    using offset_next_raised [of fetch limit mp g w e g1 w1] by blast
  have r2: "cursor_next fetch cursor_param cursor_path mp cg w = (Raised e, cg1, cw1)
      \<longrightarrow> e = TypeError \<and> requests cw1 = requests w \<and> cg_pc cg1 = CDone"
    using cursor_next_raised [of fetch cursor_param cursor_path mp cg w e cg1 cw1] by blast
  show ?thesis
    by (rule conjI off cur offp curp len e1 e2 e3 e4 r1 r2)+
qed

theorem pagination_failure_ends_sequence_witness:
  "fst (offset_next (\<lambda>k ps. Inl (RequestException ''timeout'')) 100 None
          (paginate_offset (Some 0))
          \<lparr>cells = [0 \<mapsto> JDict [(''state'', JStr ''open'')]], next_free = 1, requests = []\<rparr>)
     = StopIteration \<and>
   requests (snd (snd (offset_next (\<lambda>k ps. Inl (RequestException ''timeout'')) 100 None
          (paginate_offset (Some 0))
          \<lparr>cells = [0 \<mapsto> JDict [(''state'', JStr ''open'')]], next_free = 1, requests = []\<rparr>)))
     = [JDict [(''state'', JStr ''open''), (''limit'', JInt 100), (''offset'', JInt 0)]] \<and>
   fst (cursor_next (\<lambda>k ps. Inl (RequestException ''timeout'')) ''cursor'' ''next_cursor'' None
          (paginate_cursor (Some 0))
          \<lparr>cells = [0 \<mapsto> JDict [(''state'', JStr ''open'')]], next_free = 1, requests = []\<rparr>)
     = StopIteration \<and>
   requests (snd (snd (cursor_next (\<lambda>k ps. Inl (RequestException ''timeout'')) ''cursor''
          ''next_cursor'' None (paginate_cursor (Some 0))
          \<lparr>cells = [0 \<mapsto> JDict [(''state'', JStr ''open'')]], next_free = 1, requests = []\<rparr>)))
     = [JDict [(''state'', JStr ''open'')]]"
proof -
  let ?f = "\<lambda>(k::nat) (ps::json). (Inl (RequestException ''timeout'') :: exn + json)"
  let ?w = "\<lparr>cells = [0 \<mapsto> JDict [(''state'', JStr ''open'')]], next_free = 1, requests = []\<rparr>"
  let ?g = "paginate_offset (Some 0)"
  let ?c = "paginate_cursor (Some 0)"
  have "og_pc ?g = OHead \<and> \<not> max_pages_reached None (og_page ?g) \<and> og_kwparams ?g = Some 0 \<and>
      cells ?w 0 = Some (JDict [(''state'', JStr ''open'')]) \<and>
      ?f (length (requests ?w))
        (JDict (AList.update ''offset'' (JInt (og_offset ?g))
                 (AList.update ''limit'' (JInt 100) [(''state'', JStr ''open'')])))
        = Inl (RequestException ''timeout'')
      \<longrightarrow> fst (offset_next ?f 100 None ?g ?w) = StopIteration \<and>
          og_pc (fst (snd (offset_next ?f 100 None ?g ?w))) = ODone \<and>
          requests (snd (snd (offset_next ?f 100 None ?g ?w))) =
            requests ?w @ [JDict (AList.update ''offset'' (JInt (og_offset ?g))
                                   (AList.update ''limit'' (JInt 100) [(''state'', JStr ''open'')]))]"
    by (rule pagination_failure_ends_sequence [THEN conjunct2, THEN conjunct2, THEN conjunct1])
  then have o: "fst (offset_next ?f 100 None ?g ?w) = StopIteration \<and>
      requests (snd (snd (offset_next ?f 100 None ?g ?w)))
        = [JDict [(''state'', JStr ''open''), (''limit'', JInt 100), (''offset'', JInt 0)]]"
    by (simp add: paginate_offset_def max_pages_reached_def)
  have "cg_pc ?c = CHead \<and> \<not> truthy (cg_cursor ?c) \<and> \<not> max_pages_reached None (cg_page ?c) \<and>
      cg_kwparams ?c = Some 0 \<and> cells ?w 0 = Some (JDict [(''state'', JStr ''open'')]) \<and>
      ?f (length (requests ?w)) (JDict [(''state'', JStr ''open'')])
        = Inl (RequestException ''timeout'')
      \<longrightarrow> fst (cursor_next ?f ''cursor'' ''next_cursor'' None ?c ?w) = StopIteration \<and>
          cg_pc (fst (snd (cursor_next ?f ''cursor'' ''next_cursor'' None ?c ?w))) = CDone \<and>
          requests (snd (snd (cursor_next ?f ''cursor'' ''next_cursor'' None ?c ?w)))
            = requests ?w @ [JDict [(''state'', JStr ''open'')]]"
    by (rule pagination_failure_ends_sequence [THEN conjunct2, THEN conjunct2, THEN conjunct2,
          THEN conjunct1])
  then have c: "fst (cursor_next ?f ''cursor'' ''next_cursor'' None ?c ?w) = StopIteration \<and>
      requests (snd (snd (cursor_next ?f ''cursor'' ''next_cursor'' None ?c ?w)))
        = [JDict [(''state'', JStr ''open'')]]"
    by (simp add: paginate_cursor_def max_pages_reached_def)
  from o c show ?thesis by blast
qed

section \<open>The offset paginator\<close>
























section \<open>The cursor paginator\<close>



lemma cursor_body_cut:
  "max_pages_reached mp (cg_page g) \<Longrightarrow>
   cursor_body fetch cp mp g w = (StopIteration, g\<lparr>cg_pc := CDone\<rparr>, w)"
  by (simp add: cursor_body_def)










section \<open>The caller's params object\<close>













section \<open>Retries\<close>

lemma make_request_three_attempts:
  "make_request cfg body =
     (case body (timeout cfg) 1 of
        Inr r \<Rightarrow> (Inr r, [], 1)
      | Inl e1 \<Rightarrow>
          (case body (timeout cfg) 2 of
             Inr r \<Rightarrow> (Inr r, [2], 2)
           | Inl e2 \<Rightarrow>
               (case body (timeout cfg) 3 of
                  Inr r \<Rightarrow> (Inr r, [2, 2], 3)
                | Inl e3 \<Rightarrow> (Inl e3, [2, 2], 3))))"
proof -
  have r3: "retry 3 w b 3 s = (case b 3 of Inr r \<Rightarrow> (Inr r, s, 3) | Inl e \<Rightarrow> (Inl e, s, 3))"
    for w b and s :: "int list"
    by (subst retry.simps) (simp split: sum.splits)
  have r2: "retry 3 w b 2 s = (case b 2 of Inr r \<Rightarrow> (Inr r, s, 2) | Inl e \<Rightarrow> retry 3 w b 3 (s @ [w 2]))"
    for w b and s :: "int list"
    by (subst retry.simps) (simp split: sum.splits)
  have r1: "retry 3 w b 1 s = (case b 1 of Inr r \<Rightarrow> (Inr r, s, 1) | Inl e \<Rightarrow> retry 3 w b 2 (s @ [w 1]))"
    for w b and s :: "int list"
    by (subst retry.simps) (simp add: numeral_2_eq_2 split: sum.splits)
  have w1: "wait_exponential 1 2 10 1 = 2" and w2: "wait_exponential 1 2 10 2 = 2"
    by (simp_all add: wait_exponential_def)
  show ?thesis
    unfolding make_request_def r1 r2 r3 w1 w2
    by (simp split: sum.splits)
qed

text \<open>
  C2. The number of attempts is the constant 3 of the decorator; \<open>max_retries\<close> of the
  configuration is not read. With \<open>max_retries = 5\<close> and a backend that fails three
  times and would succeed on the fourth attempt, the request raises after three
  attempts; with \<open>max_retries = 1\<close> and a backend that fails once, a second attempt
  is made and its result returned. The delays are 2 and 2.
\<close>

theorem make_request_ignores_max_retries:
  "make_request ((default_config ''https://api.example.com'')\<lparr>max_retries := 5\<rparr>)
       (\<lambda>t k. if k \<le> 3 then Inl (RequestException ''503'') else Inr ''ok'')
     = (Inl (RequestException ''503''), [2, 2], 3) \<and>
   make_request ((default_config ''https://api.example.com'')\<lparr>max_retries := 1\<rparr>)
       (\<lambda>t k. if k = 1 then Inl (RequestException ''503'') else Inr ''ok'')
     = (Inr ''ok'', [2], 2)"
  by (simp add: make_request_three_attempts)

lemma make_request_raises_iff:
  "(\<exists>e. fst (make_request cfg body) = Inl e) \<longleftrightarrow>
     (\<forall>k\<in>{1, 2, 3}. \<exists>e. body (timeout cfg) k = Inl e)"
  by (auto simp: make_request_three_attempts split: sum.splits)

lemma make_request_reraises_last:
  "fst (make_request cfg body) = Inl e \<Longrightarrow> body (timeout cfg) 3 = Inl e"
  by (auto simp: make_request_three_attempts split: sum.splits)

section \<open>The rate limiter\<close>

lemma filter_filter_imp:
  "(\<And>x. x \<in> set xs \<Longrightarrow> Q x \<Longrightarrow> P x) \<Longrightarrow> filter Q (filter P xs) = filter Q xs"
  by (induction xs) auto

lemma length_filter_imp:
  assumes "\<And>x. x \<in> set xs \<Longrightarrow> Q x \<Longrightarrow> P x"
  shows "length (filter Q xs) \<le> length (filter P xs)"
proof -
  have "filter Q xs = filter Q (filter P xs)"
    by (rule filter_filter_imp [symmetric]) (rule assms)
  then show ?thesis by (metis length_filter_le)
qed

lemma min_list_in: "xs \<noteq> [] \<Longrightarrow> min_list xs \<in> set (xs :: 'a::linorder list)"
  using Min_in [of "set xs"] by (simp add: min_list_Min)

text \<open>Appending a timestamp no earlier than the clock keeps the invariant, provided
  fewer than the quota of the old timestamps are within a period of it.\<close>

lemma limiter_inv_append:
  fixes w :: real
  assumes w: "w = real_of_int (rate_limit_period cfg)"
    and inv: "limiter_inv cfg s stamps"
    and now: "clock s \<le> now" "now \<le> stamp"
    and kept: "kept = filter (\<lambda>t. now - t < w) (call_times s)"
    and room: "int (length (filter (\<lambda>t. stamp - t < w) kept)) < rate_limit_calls cfg"
  shows "limiter_inv cfg \<lparr>clock = stamp, call_times = kept @ [stamp]\<rparr> (stamps @ [stamp])"
proof -
  have le: "\<forall>t \<in> set stamps. t \<le> clock s"
    and agree: "filter (\<lambda>t. clock s - t < w) stamps = filter (\<lambda>t. clock s - t < w) (call_times s)"
    and wins: "\<forall>a. int (in_window a w stamps) \<le> rate_limit_calls cfg"
    using inv unfolding limiter_inv_def w by blast+
  have k: "kept = filter (\<lambda>t. now - t < w) stamps"
  proof -
    have "filter (\<lambda>t. now - t < w) (call_times s)
            = filter (\<lambda>t. now - t < w) (filter (\<lambda>t. clock s - t < w) (call_times s))"
      using now(1) by (intro filter_filter_imp [symmetric]) simp
    also have "\<dots> = filter (\<lambda>t. now - t < w) (filter (\<lambda>t. clock s - t < w) stamps)"
      by (simp only: agree)
    also have "\<dots> = filter (\<lambda>t. now - t < w) stamps"
      using now(1) by (intro filter_filter_imp) simp
    finally show ?thesis using kept by simp
  qed
  have ks: "filter (\<lambda>t. stamp - t < w) kept = filter (\<lambda>t. stamp - t < w) stamps"
    unfolding k using now(2) by (intro filter_filter_imp) simp
  have a1: "\<forall>t \<in> set (stamps @ [stamp]). t \<le> stamp"
    using le now by auto
  have a2: "filter (\<lambda>t. stamp - t < w) (stamps @ [stamp])
              = filter (\<lambda>t. stamp - t < w) (kept @ [stamp])"
    using ks by simp
  have a3: "int (length (filter (\<lambda>t. stamp - t < w) (stamps @ [stamp]))) \<le> rate_limit_calls cfg"
    using room ks by simp
  have a4: "int (in_window a w (stamps @ [stamp])) \<le> rate_limit_calls cfg" for a
  proof (cases "a \<le> stamp \<and> stamp < a + w")
    case False
    then have "in_window a w (stamps @ [stamp]) = in_window a w stamps"
      by (auto simp: in_window_def)
    then show ?thesis using wins by simp
  next
    case True
    have "length (filter (\<lambda>t. a \<le> t \<and> t < a + w) (stamps @ [stamp]))
            \<le> length (filter (\<lambda>t. stamp - t < w) (stamps @ [stamp]))"
      using True by (intro length_filter_imp) auto
    then show ?thesis using a3 by (simp add: in_window_def)
  qed
  show ?thesis
    unfolding limiter_inv_def using a1 a2 a3 a4 by (simp add: w)
qed

lemma limiter_inv_count:
  fixes w :: real
  assumes w: "w = real_of_int (rate_limit_period cfg)"
    and inv: "limiter_inv cfg s stamps" and now: "clock s \<le> now"
  shows "int (length (filter (\<lambda>t. now - t < w) (call_times s))) \<le> rate_limit_calls cfg"
proof -
  have agree: "filter (\<lambda>t. clock s - t < w) stamps = filter (\<lambda>t. clock s - t < w) (call_times s)"
    and cnt: "int (length (filter (\<lambda>t. clock s - t < w) stamps)) \<le> rate_limit_calls cfg"
    using inv unfolding limiter_inv_def w by blast+
  have "length (filter (\<lambda>t. now - t < w) (call_times s))
          \<le> length (filter (\<lambda>t. clock s - t < w) (call_times s))"
    using now by (intro length_filter_imp) simp
  then show ?thesis using cnt agree by simp
qed

lemma rate_limit_check_step:
  assumes q: "1 \<le> rate_limit_calls cfg"
    and d: "0 \<le> fst d" "0 \<le> snd d"
    and inv: "limiter_inv cfg s stamps"
  shows "\<exists>s1. rate_limit_check cfg d s = Inr s1 \<and>
           limiter_inv cfg s1 (stamps @ [last (call_times s1)])"
proof -
  define w where "w = real_of_int (rate_limit_period cfg)"
  define now where "now = clock s + fst d"
  define kept where "kept = filter (\<lambda>t. now - t < w) (call_times s)"
  have now: "clock s \<le> now" using d by (simp add: now_def)
  have cnt: "int (length kept) \<le> rate_limit_calls cfg"
    unfolding kept_def using limiter_inv_count [OF w_def inv now] .
  show ?thesis
  proof (cases "rate_limit_calls cfg \<le> int (length kept)")
    case False
    define stamp where "stamp = now + snd d"
    have r: "rate_limit_check cfg d s = Inr \<lparr>clock = stamp, call_times = kept @ [stamp]\<rparr>"
      using False
      by (simp add: rate_limit_check_def Let_def now_def [symmetric] w_def [symmetric]
          kept_def [symmetric] stamp_def)
    have "length (filter (\<lambda>t. stamp - t < w) kept) \<le> length kept" by simp
    then have room: "int (length (filter (\<lambda>t. stamp - t < w) kept)) < rate_limit_calls cfg"
      using False by linarith
    have "now \<le> stamp" using d by (simp add: stamp_def)
    from limiter_inv_append [OF w_def inv now this kept_def room] r
    show ?thesis by simp
  next
    case True
    then have ne: "kept \<noteq> []" using q by auto
    define oldest where "oldest = min_list kept"
    have mem: "oldest \<in> set kept" unfolding oldest_def using ne by (rule min_list_in)
    then have fresh: "now - oldest < w" by (simp add: kept_def)
    define stamp where "stamp = oldest + w + snd d"
    obtain x xs where kx: "kept = x # xs" using ne by (cases kept) auto
    have "rate_limit_check cfg d s =
        (let sleep_time = w - (now - min_list kept);
             woke = (if sleep_time > 0 then now + sleep_time else now);
             st = woke + snd d
         in Inr \<lparr>clock = st, call_times = kept @ [st]\<rparr>)"
      using True kx
      by (simp add: rate_limit_check_def Let_def now_def [symmetric] w_def [symmetric]
          kept_def [symmetric])
    then have r: "rate_limit_check cfg d s = Inr \<lparr>clock = stamp, call_times = kept @ [stamp]\<rparr>"
      using fresh by (simp add: Let_def oldest_def [symmetric] stamp_def)
    have gone: "\<not> stamp - oldest < w" using d by (simp add: stamp_def)
    have "length (filter (\<lambda>t. stamp - t < w) kept) < length kept"
      using mem gone by (intro length_filter_less) auto
    then have room: "int (length (filter (\<lambda>t. stamp - t < w) kept)) < rate_limit_calls cfg"
      using cnt by linarith
    have "now \<le> stamp" using fresh d by (simp add: stamp_def)
    from limiter_inv_append [OF w_def inv now this kept_def room] r
    show ?thesis by simp
  qed
qed

lemma admit_all_inv:
  assumes "1 \<le> rate_limit_calls cfg" "\<forall>d \<in> set ds. 0 \<le> fst d \<and> 0 \<le> snd d"
    and "limiter_inv cfg s stamps"
  shows "\<exists>new s'. admit_all cfg ds s = Inr (new, s') \<and> length new = length ds \<and>
           limiter_inv cfg s' (stamps @ new)"
  using assms
proof (induction ds arbitrary: s stamps)
  case Nil
  then show ?case by simp
next
  case (Cons d ds)
  from Cons.prems have d: "0 \<le> fst d" "0 \<le> snd d" by simp_all
  from rate_limit_check_step [OF Cons.prems(1) d Cons.prems(3)]
  obtain s1 where s1: "rate_limit_check cfg d s = Inr s1"
    and i1: "limiter_inv cfg s1 (stamps @ [last (call_times s1)])"
    by blast
  from Cons.IH [OF Cons.prems(1) _ i1] Cons.prems(2)
  obtain new s' where r: "admit_all cfg ds s1 = Inr (new, s')" "length new = length ds"
    "limiter_inv cfg s' ((stamps @ [last (call_times s1)]) @ new)"
    by auto
  then show ?case using s1 by simp
qed

lemma limiter_inv_init: "0 \<le> rate_limit_calls cfg \<Longrightarrow> limiter_inv cfg \<lparr>clock = t0, call_times = []\<rparr> []"
  by (simp add: limiter_inv_def in_window_def)

lemma rate_limit_check_shape:
  assumes q: "1 \<le> rate_limit_calls cfg"
  shows "\<exists>s1. rate_limit_check cfg d s = Inr s1 \<and>
           call_times s1 =
             filter (\<lambda>t. clock s + fst d - t < real_of_int (rate_limit_period cfg)) (call_times s)
               @ [clock s1] \<and>
           (0 \<le> snd d \<longrightarrow> clock s + fst d \<le> clock s1) \<and>
           (0 \<le> snd d \<and>
            rate_limit_calls cfg \<le> int (length (filter
               (\<lambda>t. clock s + fst d - t < real_of_int (rate_limit_period cfg)) (call_times s)))
            \<longrightarrow> min_list (filter
               (\<lambda>t. clock s + fst d - t < real_of_int (rate_limit_period cfg)) (call_times s))
                  + real_of_int (rate_limit_period cfg) \<le> clock s1)"
proof -
  define kept where
    "kept = filter (\<lambda>t. clock s + fst d - t < real_of_int (rate_limit_period cfg)) (call_times s)"
  show ?thesis
  proof (cases "rate_limit_calls cfg \<le> int (length kept)")
    case False
    then show ?thesis
      by (simp add: rate_limit_check_def Let_def kept_def [symmetric])
  next
    case True
    then obtain x xs where kx: "kept = x # xs" using q by (cases kept) auto
    show ?thesis
      using True kx
      by (simp add: rate_limit_check_def Let_def kept_def [symmetric])
  qed
qed

text \<open>
  C1. Let the quota \<open>rate_limit_calls\<close> be at least 1 and let time not run backwards
  (every delay is non-negative: the clock is monotone and a sleep lasts at least as
  long as asked). Then, from the empty list of a new connector, any sequence of
  \<open>_rate_limit_check\<close> calls runs without raising, every call records one timestamp,
  and no window of one period, counted as the code counts it (from \<open>a\<close> up to, not
  including, \<open>a + rate_limit_period\<close>), holds more than \<open>rate_limit_calls\<close> of the
  recorded timestamps. The bound needs no assumption on the period. Each single call,
  from any state, returns without raising; the new list is the old one without the
  timestamps a period old or older at \<open>now\<close>, followed by the fresh timestamp, which is
  not earlier than \<open>now\<close>; and when the timestamps kept had reached the quota, the
  fresh timestamp is at least one period after the oldest of them: the call has
  waited until that one left the window.
\<close>

theorem rate_limit_sliding_window:
  assumes "1 \<le> rate_limit_calls cfg"
    and "\<forall>d \<in> set ds. 0 \<le> fst d \<and> 0 \<le> snd d"
  shows "(\<exists>stamps s'. admit_all cfg ds \<lparr>clock = t0, call_times = []\<rparr> = Inr (stamps, s') \<and>
            length stamps = length ds \<and>
            (\<forall>a. int (in_window a (real_of_int (rate_limit_period cfg)) stamps)
                   \<le> rate_limit_calls cfg)) \<and>
         (\<exists>s1. rate_limit_check cfg d s = Inr s1 \<and>
            call_times s1 =
              filter (\<lambda>t. clock s + fst d - t < real_of_int (rate_limit_period cfg)) (call_times s)
                @ [clock s1] \<and>
            (0 \<le> snd d \<longrightarrow> clock s + fst d \<le> clock s1) \<and>
            (0 \<le> snd d \<and>
             rate_limit_calls cfg \<le> int (length (filter
                (\<lambda>t. clock s + fst d - t < real_of_int (rate_limit_period cfg)) (call_times s)))
             \<longrightarrow> min_list (filter
                (\<lambda>t. clock s + fst d - t < real_of_int (rate_limit_period cfg)) (call_times s))
                   + real_of_int (rate_limit_period cfg) \<le> clock s1))"
proof -
  have "limiter_inv cfg \<lparr>clock = t0, call_times = []\<rparr> []"
    using assms(1) by (simp add: limiter_inv_init)
  from admit_all_inv [OF assms(1) assms(2) this]
  obtain stamps s' where r: "admit_all cfg ds \<lparr>clock = t0, call_times = []\<rparr> = Inr (stamps, s')"
    "length stamps = length ds" "limiter_inv cfg s' stamps"
    by auto
  from r(3) have "\<forall>a. int (in_window a (real_of_int (rate_limit_period cfg)) stamps)
                   \<le> rate_limit_calls cfg"
    unfolding limiter_inv_def by blast
  with r(1,2) have run: "\<exists>stamps s'. admit_all cfg ds \<lparr>clock = t0, call_times = []\<rparr> = Inr (stamps, s') \<and>
            length stamps = length ds \<and>
            (\<forall>a. int (in_window a (real_of_int (rate_limit_period cfg)) stamps)
                   \<le> rate_limit_calls cfg)"
    by blast
  from run rate_limit_check_shape [OF assms(1), of d s] show ?thesis by (rule conjI)
qed

theorem rate_limit_sliding_window_witness:
  "admit_all ((default_config ''u'')\<lparr>rate_limit_calls := 2, rate_limit_period := 10\<rparr>)
     [(0, 0), (0, 0), (1, 0), (0, 0)] \<lparr>clock = 0, call_times = []\<rparr>
     = Inr ([0, 0, 10, 10], \<lparr>clock = 10, call_times = [10, 10]\<rparr>) \<and>
   (\<forall>a. int (in_window a 10 [0, 0, 10, 10]) \<le> 2)"
proof -
  let ?cfg = "(default_config ''u'')\<lparr>rate_limit_calls := 2, rate_limit_period := 10\<rparr>"
  let ?ds = "[(0, 0), (0, 0), (1, 0), (0, 0)] :: (real \<times> real) list"
  have ev: "admit_all ?cfg ?ds \<lparr>clock = 0, call_times = []\<rparr>
      = Inr ([0, 0, 10, 10], \<lparr>clock = 10, call_times = [10, 10]\<rparr>)"
    by (simp add: rate_limit_check_def default_config_def Let_def)
  have q: "1 \<le> rate_limit_calls ?cfg" by (simp add: default_config_def)
  have d: "\<forall>d \<in> set ?ds. 0 \<le> fst d \<and> 0 \<le> snd d" by simp
  from rate_limit_sliding_window [OF q d, of 0 "(0, 0)" "\<lparr>clock = 0, call_times = []\<rparr>"] ev
  have "\<forall>a. int (in_window a (real_of_int (rate_limit_period ?cfg)) [0, 0, 10, 10])
            \<le> rate_limit_calls ?cfg"
    by auto
  then have "\<forall>a. int (in_window a 10 [0, 0, 10, 10]) \<le> 2"
    by (simp add: default_config_def)
  with ev show ?thesis by blast
qed

end
